theory Spec2Isabelle
  imports Main "HOL-Library.AList" "HOL-Library.Multiset"
begin

section \<open>Python values, errors and containers\<close>

text \<open>
  The log analysis in \<^verbatim>\<open>server/logs_to_games.py\<close> works on values decoded from JSON
  (command arrays, history messages, log entries) and on tuples it builds from them
  (tiles). They are modelled by one datatype of dynamically typed values. Floats and
  booleans are left out of the universe. On the remaining values Python's \<^verbatim>\<open>==\<close> is
  structural equality, with a dict taken as the list of its items in insertion order.
\<close>

datatype pyval =
    PNone
  | PInt int
  | PStr string
  | PList "pyval list"
  | PTuple "pyval list"
  | PDict "(pyval \<times> pyval) list"

datatype py_error = KeyError | IndexError | TypeError | ValueError

text \<open>An insertion-ordered \<^verbatim>\<open>dict\<close>: an association list with distinct keys.\<close>

type_synonym ('k, 'v) pydict = "('k \<times> 'v) list"

text \<open>Lists and dicts are unhashable; a tuple is hashable when its components are.\<close>

fun hashable :: "pyval \<Rightarrow> bool" where
  "hashable (PList xs) = False"
| "hashable (PDict d) = False"
| "hashable (PTuple xs) = list_all hashable xs"
| "hashable v = True"

text \<open>\<^verbatim>\<open>d[k]\<close>, \<^verbatim>\<open>d.get(k)\<close>, \<^verbatim>\<open>k in d\<close>, \<^verbatim>\<open>d[k] = v\<close> and \<^verbatim>\<open>del d[k]\<close> on a dict keyed by values.\<close>

definition dict_getitem :: "(pyval, 'v) pydict \<Rightarrow> pyval \<Rightarrow> py_error + 'v" where
  "dict_getitem d k =
     (if \<not> hashable k then Inl TypeError
      else case map_of d k of None \<Rightarrow> Inl KeyError | Some v \<Rightarrow> Inr v)"

definition dict_get :: "(pyval, 'v) pydict \<Rightarrow> pyval \<Rightarrow> py_error + 'v option" where
  "dict_get d k = (if \<not> hashable k then Inl TypeError else Inr (map_of d k))"




text \<open>
  Indexing a Python list with an integer: a negative index counts from the end, an index
  out of range raises \<^verbatim>\<open>IndexError\<close>.
\<close>

definition norm_index :: "nat \<Rightarrow> int \<Rightarrow> nat option" where
  "norm_index n i =
     (let j = (if i < 0 then int n + i else i)
      in if 0 \<le> j \<and> j < int n then Some (nat j) else None)"



text \<open>
  \<^verbatim>\<open>v[i]\<close> for a constant index \<open>i \<ge> 0\<close> on a value: lists, tuples and strings are indexed
  by position, a dict by key.
\<close>

definition py_index :: "pyval \<Rightarrow> nat \<Rightarrow> py_error + pyval" where
  "py_index v i =
     (case v of
        PList xs \<Rightarrow> (if i < length xs then Inr (xs ! i) else Inl IndexError)
      | PTuple xs \<Rightarrow> (if i < length xs then Inr (xs ! i) else Inl IndexError)
      | PStr s \<Rightarrow> (if i < length s then Inr (PStr [s ! i]) else Inl IndexError)
      | PDict d \<Rightarrow> (case map_of d (PInt (int i)) of None \<Rightarrow> Inl KeyError | Some x \<Rightarrow> Inr x)
      | _ \<Rightarrow> Inl TypeError)"



subsection \<open>\<^verbatim>\<open>str\<close> and \<^verbatim>\<open>repr\<close>\<close>












text \<open>\<^verbatim>\<open>for x in v\<close>: the elements a loop over a value visits.\<close>

definition py_iter :: "pyval \<Rightarrow> py_error + pyval list" where
  "py_iter v =
     (case v of
        PList xs \<Rightarrow> Inr xs
      | PTuple xs \<Rightarrow> Inr xs
      | PStr s \<Rightarrow> Inr (map (\<lambda>c. PStr [c]) s)
      | PDict d \<Rightarrow> Inr (map fst d)
      | _ \<Rightarrow> Inl TypeError)"

text \<open>\<^verbatim>\<open>v[i] = x\<close> for a constant index \<open>i \<ge> 0\<close>: lists and dicts support item assignment.\<close>

definition py_setindex :: "pyval \<Rightarrow> nat \<Rightarrow> pyval \<Rightarrow> py_error + pyval" where
  "py_setindex v i x =
     (case v of
        PList xs \<Rightarrow> (if i < length xs then Inr (PList (xs[i := x])) else Inl IndexError)
      | PDict d \<Rightarrow> Inr (PDict (AList.update (PInt (int i)) x d))
      | _ \<Rightarrow> Inl TypeError)"

text \<open>A loop body that may raise, run over a list: the first exception ends the loop.\<close>

fun map_err :: "('a \<Rightarrow> py_error + 'b) \<Rightarrow> 'a list \<Rightarrow> py_error + 'b list" where
  "map_err f [] = Inr []"
| "map_err f (x # xs) =
     (case f x of
        Inl e \<Rightarrow> Inl e
      | Inr y \<Rightarrow> (case map_err f xs of Inl e \<Rightarrow> Inl e | Inr ys \<Rightarrow> Inr (y # ys)))"

section \<open>Enum translation\<close>

text \<open>
  \<^verbatim>\<open>class Enums\<close>. The current member names of \<^verbatim>\<open>enums.CommandsToClient\<close> and
  \<^verbatim>\<open>enums.Errors\<close> come from the module \<^verbatim>\<open>enums\<close>, which is not among the sources: they
  are the parameters \<open>cc_members\<close> and \<open>err_members\<close>.
\<close>

definition lookups :: "string list \<Rightarrow> string list \<Rightarrow> (string \<times> string list) list" where
  "lookups cc_members err_members =
     [(''CommandsToClient'', cc_members @ [''SetGamePlayerUsername'', ''SetGamePlayerClientId'']),
      (''Errors'', err_members)]"

definition lookups_changes :: "(int \<times> (string \<times> string list) list) list" where
  "lookups_changes =
     [(1417176502,
        [(''CommandsToClient'',
           [''FatalError'',
            ''SetClientId'',
            ''SetClientIdToData'',
            ''SetGameState'',
            ''SetGameBoardCell'',
            ''SetGameBoard'',
            ''SetScoreSheetCell'',
            ''SetScoreSheet'',
            ''SetGamePlayerUsername'',
            ''SetGamePlayerClientId'',
            ''SetGameWatcherClientId'',
            ''ReturnWatcherToLobby'',
            ''AddGameHistoryMessage'',
            ''AddGameHistoryMessages'',
            ''SetTurn'',
            ''SetGameAction'',
            ''SetTile'',
            ''SetTileGameBoardType'',
            ''RemoveTile'',
            ''AddGlobalChatMessage'',
            ''AddGameChatMessage'',
            ''DestroyGame''])]),
      (1409233190,
        [(''Errors'',
           [''NotUsingLatestVersion'',
            ''InvalidUsername'',
            ''UsernameAlreadyInUse''])])]"

type_synonym index_map = "(int \<times> int) list"
type_synonym translation = "(string \<times> index_map) list"

text \<open>\<^verbatim>\<open>{entry: index for index, entry in enumerate(names)}\<close>\<close>

definition entry_to_new_index :: "string list \<Rightarrow> (string \<times> int) list" where
  "entry_to_new_index names =
     foldl (\<lambda>d (index, entry). AList.update entry (int index) d) [] (enumerate 0 names)"

text \<open>\<^verbatim>\<open>{index: entry_to_new_index[entry] for index, entry in enumerate(entries)}\<close>\<close>

definition old_index_to_new_index :: "(string \<times> int) list \<Rightarrow> string list \<Rightarrow> py_error + index_map" where
  "old_index_to_new_index e2n entries =
     map_err (\<lambda>(index, entry).
        case map_of e2n entry of None \<Rightarrow> Inl KeyError | Some new \<Rightarrow> Inr (int index, new))
       (enumerate 0 entries)"

definition initialize_translation ::
  "(string \<times> string list) list \<Rightarrow> (string \<times> string list) list \<Rightarrow> py_error + translation" where
  "initialize_translation lks changes =
     map_err (\<lambda>(enum_name, entries).
        case map_of lks enum_name of
          None \<Rightarrow> Inl KeyError
        | Some names \<Rightarrow>
            (case old_index_to_new_index (entry_to_new_index names) entries of
               Inl e \<Rightarrow> Inl e
             | Inr m \<Rightarrow> Inr (enum_name, m)))
       changes"

text \<open>
  \<^verbatim>\<open>Enums.initialize\<close>, run once when the module is loaded: the value of
  \<^verbatim>\<open>Enums._translations\<close>, or the exception that stops the import. The keys of the two
  dict literals are distinct, so each assignment adds an entry at the end.
\<close>

definition initialize ::
  "(string \<times> string list) list \<Rightarrow> (int \<times> (string \<times> string list) list) list
     \<Rightarrow> py_error + (int \<times> translation) list" where
  "initialize lks lchanges =
     map_err (\<lambda>(timestamp, changes).
        case initialize_translation lks changes of
          Inl e \<Rightarrow> Inl e
        | Inr translation \<Rightarrow> Inr (timestamp, translation))
       lchanges"

text \<open>\<^verbatim>\<open>d.update(other)\<close>\<close>

definition dict_update :: "('k \<times> 'v) list \<Rightarrow> ('k \<times> 'v) list \<Rightarrow> ('k \<times> 'v) list" where
  "dict_update d other = foldl (\<lambda>d (k, v). AList.update k v d) d other"

text \<open>
  \<^verbatim>\<open>Enums.get_translations\<close>. The timestamps are the keys of a dict, hence distinct, and
  \<^verbatim>\<open>sorted(..., reverse=True)\<close> lists the items by descending timestamp.
\<close>

definition sorted_reverse :: "(int \<times> 'v) list \<Rightarrow> (int \<times> 'v) list" where
  "sorted_reverse items = rev (sort_key fst items)"

definition get_translations :: "(int \<times> translation) list \<Rightarrow> int \<Rightarrow> translation" where
  "get_translations translations timestamp =
     foldl (\<lambda>translations_for_timestamp (trans_timestamp, trans_changes).
              if timestamp \<le> trans_timestamp
              then dict_update translations_for_timestamp trans_changes
              else translations_for_timestamp)
       [] (sorted_reverse translations)"

text \<open>
  \<^verbatim>\<open>class CommandsToClientTranslator\<close>. \<open>fatal_error\<close> is the value of
  \<^verbatim>\<open>enums.CommandsToClient.FatalError\<close>.
\<close>

record translator =
  tr_commands_to_client :: "index_map option"
  tr_errors :: "index_map option"
  tr_fatal_error :: int

definition translator_init :: "int \<Rightarrow> translation \<Rightarrow> translator" where
  "translator_init fatal_error translations =
     \<lparr> tr_commands_to_client = map_of translations ''CommandsToClient'',
       tr_errors = map_of translations ''Errors'',
       tr_fatal_error = fatal_error \<rparr>"

text \<open>\<^verbatim>\<open>table[v]\<close> on a dict with integer keys.\<close>

definition index_map_getitem :: "index_map \<Rightarrow> pyval \<Rightarrow> py_error + pyval" where
  "index_map_getitem m v =
     (if \<not> hashable v then Inl TypeError
      else case v of
        PInt i \<Rightarrow> (case map_of m i of None \<Rightarrow> Inl KeyError | Some j \<Rightarrow> Inr (PInt j))
      | _ \<Rightarrow> Inl KeyError)"

text \<open>\<^verbatim>\<open>command[i] = table[command[i]]\<close>\<close>

definition translate_at :: "index_map \<Rightarrow> nat \<Rightarrow> pyval \<Rightarrow> py_error + pyval" where
  "translate_at m i command =
     (case py_index command i of
        Inl e \<Rightarrow> Inl e
      | Inr code \<Rightarrow>
          (case index_map_getitem m code of
             Inl e \<Rightarrow> Inl e
           | Inr new \<Rightarrow> py_setindex command i new))"

definition translate_error :: "int \<Rightarrow> index_map \<Rightarrow> pyval \<Rightarrow> py_error + pyval" where
  "translate_error fatal_error m command =
     (case py_index command 0 of
        Inl e \<Rightarrow> Inl e
      | Inr code \<Rightarrow> if code = PInt fatal_error then translate_at m 1 command else Inr command)"

text \<open>
  \<^verbatim>\<open>CommandsToClientTranslator.translate\<close> rewrites the batch in place; the model returns
  the rewritten elements of the batch, or the exception raised. A table that is
  \<^verbatim>\<open>None\<close> or empty is skipped, and then the batch is not even iterated.
\<close>

definition translate_with ::
  "index_map option \<Rightarrow> (index_map \<Rightarrow> pyval \<Rightarrow> py_error + pyval) \<Rightarrow> pyval \<Rightarrow> py_error + pyval" where
  "translate_with table f commands =
     (case table of
        None \<Rightarrow> Inr commands
      | Some m \<Rightarrow>
          if m = [] then Inr commands
          else (case py_iter commands of
                  Inl e \<Rightarrow> Inl e
                | Inr cs \<Rightarrow>
                    (case map_err (f m) cs of
                       Inl e \<Rightarrow> Inl e
                     | Inr cs' \<Rightarrow>
                         Inr (case commands of
                                PList _ \<Rightarrow> PList cs'
                              | PTuple _ \<Rightarrow> PTuple cs'
                              | _ \<Rightarrow> commands))))"

definition translate :: "translator \<Rightarrow> pyval \<Rightarrow> py_error + pyval" where
  "translate t commands =
     (case translate_with (tr_commands_to_client t) (\<lambda>m. translate_at m 0) commands of
        Inl e \<Rightarrow> Inl e
      | Inr commands' \<Rightarrow>
          translate_with (tr_errors t) (translate_error (tr_fatal_error t)) commands')"

section \<open>The reconstructed game\<close>

text \<open>
  \<^verbatim>\<open>class Game\<close>. The value of \<^verbatim>\<open>enums.GameBoardTypes.Nothing\<close> comes from the module
  \<^verbatim>\<open>enums\<close>, which is not among the sources: it is the parameter \<open>nothing\<close>.
\<close>

record game =
  log_timestamp :: pyval
  game_id :: pyval
  internal_game_id :: pyval
  verbose :: bool
  state :: pyval
  mode :: pyval
  max_players :: pyval
  tile_bag :: pyval
  game_begin :: pyval
  game_end :: pyval
  score :: pyval
  player_id_to_username :: "(pyval, pyval) pydict"
  username_to_player_id :: "(pyval, pyval) pydict"
  player_join_order :: "pyval list"
  board :: "pyval list list"
  score_sheet_players :: "pyval list"
  score_sheet_chain_size :: pyval
  played_tiles_order :: "pyval list"
  tile_rack_tiles :: "pyval set"
  initial_tile_racks :: "pyval list list"
  tile_racks :: "pyval list list"
  additional_tile_rack_tiles_order :: "pyval list"
  actions :: "(pyval \<times> pyval) list"
  username_to_game_history :: "(pyval, pyval list) pydict"
  expired :: bool
  is_server_game_synchronized :: "bool option"
  sync_log :: "string list option"

definition game_init :: "int \<Rightarrow> pyval \<Rightarrow> pyval \<Rightarrow> pyval \<Rightarrow> bool \<Rightarrow> game" where
  "game_init nothing log_timestamp' game_id' internal_game_id' verbose' =
     \<lparr> log_timestamp = log_timestamp',
       game_id = game_id',
       internal_game_id = internal_game_id',
       verbose = verbose',
       state = PNone,
       mode = PNone,
       max_players = PNone,
       tile_bag = PNone,
       game_begin = PNone,
       game_end = PNone,
       score = PNone,
       player_id_to_username = [],
       username_to_player_id = [],
       player_join_order = [],
       board = map (\<lambda>x. map (\<lambda>y. PInt nothing) [0..<9]) [0..<12],
       score_sheet_players = map (\<lambda>x. PList (map PInt [0, 0, 0, 0, 0, 0, 0, 60])) [0..<6],
       score_sheet_chain_size = PList (map PInt [0, 0, 0, 0, 0, 0, 0]),
       played_tiles_order = [],
       tile_rack_tiles = {},
       initial_tile_racks = map (\<lambda>x. [PNone, PNone, PNone, PNone, PNone, PNone]) [0..<6],
       tile_racks = map (\<lambda>x. [PNone, PNone, PNone, PNone, PNone, PNone]) [0..<6],
       additional_tile_rack_tiles_order = [],
       actions = [],
       username_to_game_history = [],
       expired = False,
       is_server_game_synchronized = None,
       sync_log = None \<rparr>"

text \<open>Example values of the two parameters: members in the order of the handler table of \<^verbatim>\<open>LogProcessor\<close>.\<close>

definition cc_members_example :: "string list" where
  "cc_members_example =
     [''FatalError'', ''SetClientId'', ''SetClientIdToData'', ''SetGameState'',
      ''SetGameBoardCell'', ''SetGameBoard'', ''SetScoreSheetCell'', ''SetScoreSheet'',
      ''SetGamePlayerJoin'', ''SetGamePlayerRejoin'', ''SetGamePlayerLeave'',
      ''SetGamePlayerJoinMissing'', ''SetGameWatcherClientId'', ''ReturnWatcherToLobby'',
      ''AddGameHistoryMessage'', ''AddGameHistoryMessages'', ''SetTurn'', ''SetGameAction'',
      ''SetTile'', ''SetTileGameBoardType'', ''RemoveTile'', ''AddGlobalChatMessage'',
      ''AddGameChatMessage'', ''DestroyGame'']"

definition err_members_example :: "string list" where
  "err_members_example =
     [''NotUsingLatestVersion'', ''GenericError'', ''InvalidUsername'', ''UsernameAlreadyInUse'']"

section \<open>The line classifier\<close>

text \<open>
  \<^verbatim>\<open>class LogParser\<close>, the part of \<^verbatim>\<open>_handle_command_to_client\<close> that follows decoding and
  translation. \<open>enum_set_game_board_cell\<close> is the value of
  \<^verbatim>\<open>enums.CommandsToClient.SetGameBoardCell\<close>, and \<open>enum_set_game_player\<close> the set of indexes
  of the command names that contain \<^verbatim>\<open>SetGamePlayer\<close>; both are fields of the parser.
\<close>

datatype command_kind = SetGameBoardCell | SetGamePlayer | OtherCommand

text \<open>The \<^verbatim>\<open>if\<close>/\<^verbatim>\<open>elif\<close> on \<^verbatim>\<open>command[0]\<close>; membership in a set hashes the code.\<close>

definition kind_of_command :: "int \<Rightarrow> int set \<Rightarrow> pyval \<Rightarrow> py_error + command_kind" where
  "kind_of_command enum_set_game_board_cell enum_set_game_player command =
     (case py_index command 0 of
        Inl e \<Rightarrow> Inl e
      | Inr code \<Rightarrow>
          if code = PInt enum_set_game_board_cell then Inr SetGameBoardCell
          else if \<not> hashable code then Inl TypeError
          else if (case code of PInt n \<Rightarrow> n \<in> enum_set_game_player | _ \<Rightarrow> False)
            then Inr SetGamePlayer
          else Inr OtherCommand)"

text \<open>
  The loop over \<^verbatim>\<open>enumerate(commands)\<close>, from index \<open>index\<close> on: the two sets of indexes,
  each listed in ascending order.
\<close>

fun command_indexes :: "int \<Rightarrow> int set \<Rightarrow> nat \<Rightarrow> pyval list \<Rightarrow> py_error + nat list \<times> nat list" where
  "command_indexes b p index [] = Inr ([], [])"
| "command_indexes b p index (command # commands) =
     (case kind_of_command b p command of
        Inl e \<Rightarrow> Inl e
      | Inr k \<Rightarrow>
          (case command_indexes b p (Suc index) commands of
             Inl e \<Rightarrow> Inl e
           | Inr (board_indexes, player_indexes) \<Rightarrow>
               (case k of
                  SetGameBoardCell \<Rightarrow> Inr (index # board_indexes, player_indexes)
                | SetGamePlayer \<Rightarrow> Inr (board_indexes, index # player_indexes)
                | OtherCommand \<Rightarrow> Inr (board_indexes, player_indexes))))"

text \<open>\<^verbatim>\<open>commands[min_index:max_index + 1] + commands[:min_index] + commands[max_index + 1:]\<close>\<close>

definition move_slice :: "nat \<Rightarrow> nat \<Rightarrow> 'a list \<Rightarrow> 'a list" where
  "move_slice min_index max_index xs =
     take (max_index + 1 - min_index) (drop min_index xs) @ take min_index xs @ drop (max_index + 1) xs"

definition py_move_slice :: "nat \<Rightarrow> nat \<Rightarrow> pyval \<Rightarrow> py_error + pyval" where
  "py_move_slice min_index max_index commands =
     (case commands of
        PList xs \<Rightarrow> Inr (PList (move_slice min_index max_index xs))
      | PTuple xs \<Rightarrow> Inr (PTuple (move_slice min_index max_index xs))
      | PStr s \<Rightarrow> Inr (PStr (move_slice min_index max_index s))
      | _ \<Rightarrow> Inl TypeError)"

definition reorder_commands :: "int \<Rightarrow> int set \<Rightarrow> pyval \<Rightarrow> py_error + pyval" where
  "reorder_commands enum_set_game_board_cell enum_set_game_player commands =
     (case py_iter commands of
        Inl e \<Rightarrow> Inl e
      | Inr cs \<Rightarrow>
          (case command_indexes enum_set_game_board_cell enum_set_game_player 0 cs of
             Inl e \<Rightarrow> Inl e
           | Inr (board_indexes, player_indexes) \<Rightarrow>
               if board_indexes \<noteq> [] \<and> player_indexes \<noteq> []
                  \<and> hd board_indexes < hd player_indexes
               then (let min_index = hd player_indexes; max_index = last player_indexes
                     in py_move_slice min_index max_index commands)
               else Inr commands))"

text \<open>
  The claim's words, for comparison with \<open>reorder_commands\<close>: every set-game-player command
  stands in front, the other commands follow, both in their original relative order.
\<close>

definition is_kind :: "int \<Rightarrow> int set \<Rightarrow> command_kind \<Rightarrow> pyval \<Rightarrow> bool" where
  "is_kind b p k command = (kind_of_command b p command = Inr k)"

definition player_runs_first :: "int \<Rightarrow> int set \<Rightarrow> pyval list \<Rightarrow> pyval list" where
  "player_runs_first b p cs =
     filter (is_kind b p SetGamePlayer) cs @ filter (\<lambda>c. \<not> is_kind b p SetGamePlayer c) cs"

text \<open>The claim's condition: some board command stands before some set-game-player command.\<close>

definition board_precedes_player :: "int \<Rightarrow> int set \<Rightarrow> pyval list \<Rightarrow> bool" where
  "board_precedes_player b p cs =
     (\<exists>j < length cs. \<exists>i < j. is_kind b p SetGameBoardCell (cs ! i) \<and> is_kind b p SetGamePlayer (cs ! j))"

text \<open>Position of the first and of the last element that satisfies a predicate.\<close>

fun first_index :: "('a \<Rightarrow> bool) \<Rightarrow> 'a list \<Rightarrow> nat" where
  "first_index q [] = 0"
| "first_index q (x # xs) = (if q x then 0 else Suc (first_index q xs))"

fun last_index :: "('a \<Rightarrow> bool) \<Rightarrow> 'a list \<Rightarrow> nat" where
  "last_index q [] = 0"
| "last_index q (x # xs) = (if \<exists>y \<in> set xs. q y then Suc (last_index q xs) else 0)"

text \<open>The condition the code tests: the first board command stands before the first set-game-player command.\<close>

definition first_board_before_first_player :: "int \<Rightarrow> int set \<Rightarrow> pyval list \<Rightarrow> bool" where
  "first_board_before_first_player b p cs =
     ((\<exists>c \<in> set cs. is_kind b p SetGameBoardCell c) \<and> (\<exists>c \<in> set cs. is_kind b p SetGamePlayer c)
      \<and> first_index (is_kind b p SetGameBoardCell) cs < first_index (is_kind b p SetGamePlayer) cs)"

text \<open>The assumption of the code's comment: the set-game-player commands are next to each other.\<close>

definition players_contiguous :: "int \<Rightarrow> int set \<Rightarrow> pyval list \<Rightarrow> bool" where
  "players_contiguous b p cs =
     list_all (is_kind b p SetGamePlayer)
       (take (last_index (is_kind b p SetGamePlayer) cs + 1 - first_index (is_kind b p SetGamePlayer) cs)
          (drop (first_index (is_kind b p SetGamePlayer) cs) cs))"




text \<open>
  Example batches, with the command codes of the example enum: 4 is SetGameBoardCell;
  8, 9, 10, 11, 24 and 25 are the names that contain SetGamePlayer; 18 is SetTile.
\<close>

definition example_board_cell :: pyval where
  "example_board_cell = PList [PInt 4, PInt 3, PInt 5, PInt 1]"

definition example_player_join :: pyval where
  "example_player_join = PList [PInt 8, PInt 7, PInt 0, PInt 2]"

definition example_player_rejoin :: pyval where
  "example_player_rejoin = PList [PInt 9, PInt 7, PInt 1, PInt 3]"

definition example_set_tile :: pyval where
  "example_set_tile = PList [PInt 18, PInt 0, PInt 3, PInt 5]"

subsection \<open>Regular expressions\<close>




























subsection \<open>\<^verbatim>\<open>class LogParser\<close>\<close>





text \<open>
  The parser. \<open>lp_decode\<close> is \<^verbatim>\<open>ujson.decode\<close>, a library function: it returns the decoded
  value, or \<open>None\<close> where it raises \<^verbatim>\<open>ValueError\<close>.
\<close>

record log_parser =
  lp_file :: "string list"
  lp_decode :: "string \<Rightarrow> pyval option"
  commands_to_client_translator :: translator
  connection_made_count :: nat
  enum_set_game_board_cell :: int
  enum_set_game_player :: "int set"



























section \<open>The game state reconstructor\<close>




text \<open>A step that may raise, followed by the rest of the computation.\<close>

definition and_then :: "py_error + 'a \<Rightarrow> ('a \<Rightarrow> py_error + 'b) \<Rightarrow> py_error + 'b" where
  "and_then x f = (case x of Inl e \<Rightarrow> Inl e | Inr v \<Rightarrow> f v)"


text \<open>
  The values of the enum members the reconstructor uses (module \<^verbatim>\<open>enums\<close> is not among
  the sources), and the index of \<^verbatim>\<open>SetGamePlayerClientId\<close> in
  \<^verbatim>\<open>Enums.lookups['CommandsToClient']\<close>.
\<close>

record enum_values =
  ev_SetGameBoardCell :: int
  ev_SetScoreSheetCell :: int
  ev_SetScoreSheet :: int
  ev_SetGamePlayerJoin :: int
  ev_SetGamePlayerRejoin :: int
  ev_SetGamePlayerLeave :: int
  ev_SetGameWatcherClientId :: int
  ev_ReturnWatcherToLobby :: int
  ev_AddGameHistoryMessage :: int
  ev_AddGameHistoryMessages :: int
  ev_SetTile :: int
  ev_RemoveTile :: int
  ev_SetGamePlayerClientId :: int
  ev_DoGameAction :: int
  ev_Nothing :: int
  ev_DrewPositionTile :: int
  ev_DrewTile :: int
  ev_ReplacedDeadTile :: int
  ev_TurnBegan :: int

text \<open>
  \<^verbatim>\<open>class LogProcessor\<close>, with \<^verbatim>\<open>verbose=False\<close> (the default). A delayed call is always
  \<^verbatim>\<open>_handle_disconnect__delayed\<close>: the list holds the client ids.
\<close>

record log_processor =
  enums :: enum_values
  proc_log_timestamp :: int
  client_id_to_username :: "(pyval, pyval) pydict"
  username_to_client_id :: "(pyval, pyval) pydict"
  client_id_to_game_id :: "(pyval, pyval) pydict"
  game_id_to_game :: "(pyval, game) pydict"
  delayed_calls :: "int list"
  expired_games :: "game list"
  current_time :: "string option"






text \<open>\<^verbatim>\<open>self._game_id_to_game[self._client_id_to_game_id[client_id]]\<close>: the key and the game.\<close>

definition game_of_client :: "log_processor \<Rightarrow> pyval \<Rightarrow> py_error + pyval \<times> game" where
  "game_of_client s client_id =
     and_then (dict_getitem (client_id_to_game_id s) client_id) (\<lambda>gid.
     and_then (dict_getitem (game_id_to_game s) gid) (\<lambda>g. Inr (gid, g)))"

text \<open>A change of a game object reached through \<^verbatim>\<open>_game_id_to_game\<close>.\<close>

definition store_game :: "log_processor \<Rightarrow> pyval \<Rightarrow> game \<Rightarrow> log_processor" where
  "store_game s gid g = s\<lparr>game_id_to_game := AList.update gid g (game_id_to_game s)\<rparr>"
















text \<open>
  The part of the two history handlers they share: the game of the client and the
  client's username, when the username is a player of the game (\<open>None\<close> when it is not).
\<close>

definition history_target :: "log_processor \<Rightarrow> pyval \<Rightarrow> py_error + (pyval \<times> game \<times> pyval) option" where
  "history_target s client_id =
     and_then (game_of_client s client_id) (\<lambda>(gid, g).
     and_then (dict_getitem (client_id_to_username s) client_id) (\<lambda>username.
     and_then (dict_get (username_to_player_id g) username) (\<lambda>player_id.
       case player_id of
         None \<Rightarrow> Inr None
       | Some pid \<Rightarrow> if pid = PNone then Inr None else Inr (Some (gid, g, username)))))"






text \<open>\<^verbatim>\<open>game.username_to_player_id[self._client_id_to_username[client_id]]\<close>\<close>

definition player_of_client :: "log_processor \<Rightarrow> game \<Rightarrow> pyval \<Rightarrow> py_error + pyval" where
  "player_of_client s g client_id =
     and_then (dict_getitem (client_id_to_username s) client_id) (\<lambda>username.
       dict_getitem (username_to_player_id g) username)"





























text \<open>
  For the frame property of the delayed disconnects: a result with the queue of delayed
  calls replaced.
\<close>

definition with_queue :: "int list \<Rightarrow> log_processor \<Rightarrow> log_processor" where
  "with_queue q s = s\<lparr>delayed_calls := q\<rparr>"

definition lift_queue :: "int list \<Rightarrow> py_error + log_processor \<Rightarrow> py_error + log_processor" where
  "lift_queue q r = (case r of Inl e \<Rightarrow> Inl e | Inr s \<Rightarrow> Inr (with_queue q s))"













section \<open>The comparison with the reference simulation\<close>




















section \<open>Properties\<close>

text \<open>
  C10. A newly created game starts in a fixed state: a board of 12 columns of 9 cells, all
  of the Nothing board type; six score rows \<open>[0, 0, 0, 0, 0, 0, 0, 60]\<close>; a chain-size row of
  seven zeros; six tile racks and six initial tile racks of six empty slots; and empty
  played-tiles, additional-tiles, rack-tile, action and history collections.
\<close>

theorem game_init_fixed_state:
  "board (game_init nothing ts gid iid v) = replicate 12 (replicate 9 (PInt nothing))
   \<and> score_sheet_players (game_init nothing ts gid iid v)
       = replicate 6 (PList [PInt 0, PInt 0, PInt 0, PInt 0, PInt 0, PInt 0, PInt 0, PInt 60])
   \<and> score_sheet_chain_size (game_init nothing ts gid iid v) = PList (replicate 7 (PInt 0))
   \<and> tile_racks (game_init nothing ts gid iid v) = replicate 6 (replicate 6 PNone)
   \<and> initial_tile_racks (game_init nothing ts gid iid v) = replicate 6 (replicate 6 PNone)
   \<and> played_tiles_order (game_init nothing ts gid iid v) = []
   \<and> additional_tile_rack_tiles_order (game_init nothing ts gid iid v) = []
   \<and> tile_rack_tiles (game_init nothing ts gid iid v) = {}
   \<and> actions (game_init nothing ts gid iid v) = []
   \<and> username_to_game_history (game_init nothing ts gid iid v) = []"
  by (simp add: game_init_def map_replicate_const numeral_eq_Suc)

subsection \<open>Enum translation\<close>

lemma map_err_Inr_all2:
  "map_err f xs = Inr ys \<Longrightarrow> list_all2 (\<lambda>x y. f x = Inr y) xs ys"
  by (induction xs arbitrary: ys) (auto split: sum.splits)

lemma keys_dict_update:
  "fst ` set (dict_update d other) = fst ` set d \<union> fst ` set other"
  unfolding dict_update_def
proof (induction other arbitrary: d)
  case Nil
  show ?case by simp
next
  case (Cons p other)
  obtain k v where p: "p = (k, v)" by (cases p)
  have "fst ` set (AList.update k v d) = insert k (fst ` set d)"
    by (simp add: dom_update)
  with Cons.IH [of "AList.update k v d"] show ?case
    by (simp add: p)
qed

lemma set_sorted_reverse: "set (sorted_reverse xs) = set xs"
  by (simp add: sorted_reverse_def)

lemma get_translations_fold:
  "get_translations tr t =
     foldl dict_update [] (map snd (filter (\<lambda>(ts, ch). t \<le> ts) (sorted_reverse tr)))"
proof -
  have "foldl (\<lambda>acc (ts, ch). if t \<le> ts then dict_update acc ch else acc) a xs
        = foldl dict_update a (map snd (filter (\<lambda>(ts, ch). t \<le> ts) xs))" for a and xs :: "(int \<times> translation) list"
    by (induction xs arbitrary: a) (auto)
  then show ?thesis by (simp add: get_translations_def)
qed

lemma keys_foldl_dict_update:
  "fst ` set (foldl dict_update a ds) = fst ` set a \<union> (\<Union>d \<in> set ds. fst ` set d)"
  by (induction ds arbitrary: a) (auto simp: keys_dict_update)

lemma get_translations_keys_gen:
  "fst ` set (get_translations tr t) = (\<Union>(ts, ch) \<in> {p \<in> set tr. t \<le> fst p}. fst ` set ch)"
  by (force simp: get_translations_fold keys_foldl_dict_update set_sorted_reverse split: prod.splits) 

lemma initialize_translation_keys:
  "initialize_translation lks changes = Inr tr \<Longrightarrow> map fst tr = map fst changes"
  unfolding initialize_translation_def
  by (drule map_err_Inr_all2, induction changes tr rule: list_all2_induct) (auto split: option.splits sum.splits)

lemma initialize_keys:
  "initialize lks lc = Inr tr \<Longrightarrow> list_all2 (\<lambda>(ts, ch) (ts', ch'). ts' = ts \<and> map fst ch' = map fst ch) lc tr"
  unfolding initialize_def
  by (drule map_err_Inr_all2, induction lc tr rule: list_all2_induct) (auto split: option.splits sum.splits dest: initialize_translation_keys)

lemma list_all2_in_right:
  "list_all2 P xs ys \<Longrightarrow> y \<in> set ys \<Longrightarrow> \<exists>x \<in> set xs. P x y"
  by (induction rule: list_all2_induct) auto

lemma list_all2_in_left:
  "list_all2 P xs ys \<Longrightarrow> x \<in> set xs \<Longrightarrow> \<exists>y \<in> set ys. P x y"
  by (induction rule: list_all2_induct) auto

lemma initialize_families:
  assumes "initialize lks lc = Inr tr"
  shows "(\<Union>(ts, ch) \<in> {p \<in> set tr. t \<le> fst p}. fst ` set ch)
         = {family. \<exists>ts changes. (ts, changes) \<in> set lc \<and> t \<le> ts \<and> family \<in> fst ` set changes}"
proof -
  let ?R = "\<lambda>(ts, ch) (ts', ch'). ts' = ts \<and> map fst ch' = map fst (ch :: (string \<times> string list) list)"
  have r: "list_all2 ?R lc tr" using assms by (rule initialize_keys)
  have keys: "fst ` set a = fst ` set b" if "map fst a = map fst b" for a :: "(string \<times> 'x) list" and b :: "(string \<times> 'y) list"
  proof -
    have "set (map fst a) = set (map fst b)" using that by simp
    then show ?thesis by (simp only: set_map)
  qed
  show ?thesis
  proof (intro set_eqI iffI)
    fix f assume "f \<in> (\<Union>(ts, ch) \<in> {p \<in> set tr. t \<le> fst p}. fst ` set ch)"
    then obtain ts ch' where m: "(ts, ch') \<in> set tr" "t \<le> ts" "f \<in> fst ` set ch'" by auto
    from list_all2_in_right [OF r m(1)] obtain p where p: "p \<in> set lc" "?R p (ts, ch')"
      by blast
    obtain ts0 ch where pe: "p = (ts0, ch)" by (cases p)
    from p pe have "ts0 = ts" "map fst ch' = map fst ch" by auto
    with m keys [of ch' ch] p(1) pe show "f \<in> {family. \<exists>ts changes. (ts, changes) \<in> set lc \<and> t \<le> ts \<and> family \<in> fst ` set changes}"
      by auto
  next
    fix f assume "f \<in> {family. \<exists>ts changes. (ts, changes) \<in> set lc \<and> t \<le> ts \<and> family \<in> fst ` set changes}"
    then obtain ts ch where m: "(ts, ch) \<in> set lc" "t \<le> ts" "f \<in> fst ` set ch" by auto
    from list_all2_in_left [OF r m(1)] obtain p where p: "p \<in> set tr" "?R (ts, ch) p"
      by blast
    obtain ts0 ch' where pe: "p = (ts0, ch')" by (cases p)
    from p pe have "ts0 = ts" "map fst ch' = map fst ch" by auto
    with m keys [of ch' ch] p(1) pe show "f \<in> (\<Union>(ts, ch) \<in> {p \<in> set tr. t \<le> fst p}. fst ` set ch)"
      by force
  qed
qed

lemma initialize_timestamps:
  assumes "initialize lks lc = Inr tr"
  shows "fst ` set tr = fst ` set lc"
proof -
  have "list_all2 (\<lambda>(ts, ch) (ts', ch'). ts' = ts \<and> map fst ch' = map fst ch) lc tr"
    using assms by (rule initialize_keys)
  then have "map fst tr = map fst lc"
    by (induction lc tr rule: list_all2_induct) auto
  then have "set (map fst tr) = set (map fst lc)" by simp
  then show ?thesis by (simp only: set_map)
qed

lemma get_translations_later:
  assumes "\<forall>ts \<in> fst ` set tr. ts < t"
  shows "get_translations tr t = []"
proof -
  have "filter (\<lambda>(ts, ch). t \<le> ts) (sorted_reverse tr) = []"
  proof -
    have "\<not> (case p of (ts, ch) \<Rightarrow> t \<le> ts)" if "p \<in> set (sorted_reverse tr)" for p
    proof -
      from that have "fst p \<in> fst ` set tr" by (simp add: set_sorted_reverse)
      with assms have "fst p < t" by blast
      then show ?thesis by (cases p) simp
    qed
    then show ?thesis by (simp only: filter_empty_conv) blast
  qed
  then show ?thesis by (simp add: get_translations_fold)
qed

lemma translate_no_tables:
  "translate (translator_init fatal_error []) commands = Inr commands"
  by (simp add: translate_def translate_with_def translator_init_def)

text \<open>
  C5. For every log timestamp \<open>t\<close>, the keys of \<^verbatim>\<open>Enums.get_translations(t)\<close> are exactly the
  enum families with a recorded change whose timestamp is at least \<open>t\<close>; the mapping is
  built by applying every such snapshot, newest first; and for a timestamp later than every
  recorded change the mapping is empty and \<^verbatim>\<open>translate\<close> leaves every batch unchanged.
\<close>

theorem get_translations_keys:
  assumes "initialize (lookups cc_members err_members) lookups_changes = Inr translations"
  shows "fst ` set (get_translations translations t)
           = {family. \<exists>ts changes. (ts, changes) \<in> set lookups_changes \<and> t \<le> ts
                \<and> family \<in> fst ` set changes}
       \<and> get_translations translations t
           = foldl dict_update []
               (map snd (filter (\<lambda>(ts, changes). t \<le> ts) (sorted_reverse translations)))
       \<and> ((\<forall>ts \<in> fst ` set lookups_changes. ts < t) \<longrightarrow>
            get_translations translations t = [] \<and>
            translate (translator_init fatal_error (get_translations translations t)) commands
              = Inr commands)"
proof (intro conjI impI)
  show "fst ` set (get_translations translations t)
           = {family. \<exists>ts changes. (ts, changes) \<in> set lookups_changes \<and> t \<le> ts
                \<and> family \<in> fst ` set changes}"
    using initialize_families [OF assms, of t] by (simp add: get_translations_keys_gen)
  show "get_translations translations t
           = foldl dict_update []
               (map snd (filter (\<lambda>(ts, changes). t \<le> ts) (sorted_reverse translations)))"
    by (rule get_translations_fold)
  assume later: "\<forall>ts \<in> fst ` set lookups_changes. ts < t"
  then have "\<forall>ts \<in> fst ` set translations. ts < t"
    using initialize_timestamps [OF assms] by simp
  then show e: "get_translations translations t = []" by (rule get_translations_later)
  show "translate (translator_init fatal_error (get_translations translations t)) commands
              = Inr commands"
    by (simp only: e translate_no_tables)
qed

theorem get_translations_keys_witness:
  "\<exists>translations.
     initialize (lookups cc_members_example err_members_example) lookups_changes = Inr translations
     \<and> fst ` set (get_translations translations 1410000000) = {''CommandsToClient''}
     \<and> fst ` set (get_translations translations 1400000000) = {''CommandsToClient'', ''Errors''}
     \<and> get_translations translations 1500000000 = []
     \<and> translate (translator_init 0 (get_translations translations 1500000000))
           (PList [PList [PInt 4, PInt 3, PInt 2, PInt 1]])
         = Inr (PList [PList [PInt 4, PInt 3, PInt 2, PInt 1]])"
proof -
  have "\<not> isl (initialize (lookups cc_members_example err_members_example) lookups_changes)"
    by code_simp
  then obtain tr where
    i: "initialize (lookups cc_members_example err_members_example) lookups_changes = Inr tr"
    by (cases "initialize (lookups cc_members_example err_members_example) lookups_changes") auto
  have l: "\<forall>ts \<in> fst ` set lookups_changes. ts < 1500000000"
    by (simp add: lookups_changes_def)
  have fam: "{family. \<exists>ts changes. (ts, changes) \<in> set lc \<and> t \<le> ts \<and> family \<in> fst ` set changes}
      = set (concat (map (\<lambda>(ts, ch). map fst ch) (filter (\<lambda>(ts, ch). t \<le> ts) lc)))"
    for t :: int and lc :: "(int \<times> (string \<times> string list) list) list"
    by force
  have a: "{family. \<exists>ts changes. (ts, changes) \<in> set lookups_changes \<and> 1410000000 \<le> ts
                \<and> family \<in> fst ` set changes} = {''CommandsToClient''}"
    unfolding fam by (simp add: lookups_changes_def)
  have b: "{family. \<exists>ts changes. (ts, changes) \<in> set lookups_changes \<and> 1400000000 \<le> ts
                \<and> family \<in> fst ` set changes} = {''CommandsToClient'', ''Errors''}"
    unfolding fam by (simp add: lookups_changes_def)
  note k1 = get_translations_keys [OF i, of 1410000000, unfolded a, THEN conjunct1]
  note k2 = get_translations_keys [OF i, of 1400000000, unfolded b, THEN conjunct1]
  note k3 = get_translations_keys [OF i, of 1500000000 0 "PList [PList [PInt 4, PInt 3, PInt 2, PInt 1]]",
      THEN conjunct2, THEN conjunct2, THEN mp, OF l]
  note k4 = k3 [THEN conjunct1]
  note k5 = k3 [THEN conjunct2]
  show ?thesis
    by (intro exI [of _ tr] conjI) (rule i k1 k2 k4 k5)+
qed

subsection \<open>Reordering a batch\<close>

lemma first_index_less:
  "\<exists>x \<in> set xs. q x \<Longrightarrow> first_index q xs < length xs \<and> q (xs ! first_index q xs)"
  by (induction xs) auto

lemma first_index_before:
  "k < first_index q xs \<Longrightarrow> \<not> q (xs ! k)"
proof (induction xs arbitrary: k)
  case Nil then show ?case by simp
next
  case (Cons x xs)
  then show ?case by (cases k) (auto split: if_splits)
qed

lemma first_index_le_length: "first_index q xs \<le> length xs"
  by (induction xs) auto

lemma last_index_less:
  "\<exists>x \<in> set xs. q x \<Longrightarrow> last_index q xs < length xs \<and> q (xs ! last_index q xs)"
  by (induction xs) auto

lemma last_index_after:
  "last_index q xs < k \<Longrightarrow> k < length xs \<Longrightarrow> \<not> q (xs ! k)"
proof (induction xs arbitrary: k)
  case Nil then show ?case by simp
next
  case (Cons x xs)
  then show ?case by (cases k) (auto split: if_splits)
qed

lemma first_le_last_index:
  "\<exists>x \<in> set xs. q x \<Longrightarrow> first_index q xs \<le> last_index q xs"
  by (metis first_index_less last_index_after not_le_imp_less)

lemma move_slice_tail:
  assumes "f \<le> l"
  shows "take (l + 1 - f) (drop f xs) @ drop (l + 1) xs = drop f xs"
proof -
  have "drop (l + 1) xs = drop (l + 1 - f) (drop f xs)" using assms by simp
  then show ?thesis by (simp only: append_take_drop_id)
qed

lemma move_slice_mset:
  assumes "f \<le> l"
  shows "mset (move_slice f l xs) = mset xs"
proof -
  have "mset (move_slice f l xs)
        = mset (take f xs) + mset (take (l + 1 - f) (drop f xs) @ drop (l + 1) xs)"
    by (simp add: move_slice_def)
  also have "\<dots> = mset (take f xs) + mset (drop f xs)"
    by (simp only: move_slice_tail [OF assms])
  also have "\<dots> = mset xs"
    by (simp flip: mset_append)
  finally show ?thesis .
qed

lemma filter_three:
  assumes "\<And>x. x \<in> set A \<Longrightarrow> \<not> q x" "\<And>x. x \<in> set M \<Longrightarrow> q x" "\<And>x. x \<in> set Z \<Longrightarrow> \<not> q x"
  shows "filter q (A @ M @ Z) = M \<and> filter (\<lambda>x. \<not> q x) (A @ M @ Z) = A @ Z"
proof -
  have "filter q A = []" "filter q Z = []" "filter q M = M"
    using assms by (simp_all add: filter_empty_conv filter_id_conv)
  moreover have "filter (\<lambda>x. \<not> q x) A = A" "filter (\<lambda>x. \<not> q x) Z = Z" "filter (\<lambda>x. \<not> q x) M = []"
    using assms by (simp_all add: filter_empty_conv filter_id_conv)
  ultimately show ?thesis by simp
qed

lemma move_slice_filter:
  assumes ex: "\<exists>x \<in> set xs. q x"
    and contiguous: "list_all q (take (last_index q xs + 1 - first_index q xs) (drop (first_index q xs) xs))"
  shows "move_slice (first_index q xs) (last_index q xs) xs
         = filter q xs @ filter (\<lambda>x. \<not> q x) xs"
proof -
  define f l where "f = first_index q xs" and "l = last_index q xs"
  define A M Z where "A = take f xs" and "M = take (l + 1 - f) (drop f xs)" and "Z = drop (l + 1) xs"
  have fl: "f \<le> l" unfolding f_def l_def using ex by (rule first_le_last_index)
  have "M @ Z = drop f xs"
    unfolding M_def Z_def by (rule move_slice_tail [OF fl])
  then have "A @ M @ Z = xs"
    unfolding A_def by simp
  then have split: "xs = A @ M @ Z" by (rule sym)
  have a: "\<not> q x" if "x \<in> set A" for x
  proof -
    from that obtain k where "k < length A" "x = A ! k"
      by (auto simp: in_set_conv_nth)
    then have "k < f" "x = xs ! k" by (auto simp: A_def)
    then show ?thesis using first_index_before [of k q xs] by (simp add: f_def)
  qed
  have m: "q x" if "x \<in> set M" for x
    using that contiguous by (simp add: M_def f_def l_def list_all_iff)
  have z: "\<not> q x" if "x \<in> set Z" for x
  proof -
    from that obtain k where "k < length Z" "x = Z ! k"
      by (auto simp: in_set_conv_nth)
    then have k: "l + 1 + k < length xs" "x = xs ! (l + 1 + k)" by (auto simp: Z_def)
    have "\<not> q (xs ! (l + 1 + k))"
      by (rule last_index_after) (use k(1) in \<open>simp_all add: l_def\<close>)
    then show ?thesis using k(2) by simp
  qed
  from filter_three [of A q M Z] a m z
  have "filter q (A @ M @ Z) = M \<and> filter (\<lambda>x. \<not> q x) (A @ M @ Z) = A @ Z" by blast
  then have "filter q xs = M \<and> filter (\<lambda>x. \<not> q x) xs = A @ Z"
    by (simp only: split [symmetric])
  then show ?thesis
    unfolding move_slice_def f_def [symmetric] l_def [symmetric] A_def [symmetric] M_def [symmetric] Z_def [symmetric]
    by simp
qed

lemma command_indexes_spec:
  "command_indexes b p i cs = Inr (bs, ps) \<Longrightarrow>
     (bs \<noteq> [] \<longleftrightarrow> (\<exists>c \<in> set cs. is_kind b p SetGameBoardCell c))
   \<and> (bs \<noteq> [] \<longrightarrow> hd bs = i + first_index (is_kind b p SetGameBoardCell) cs)
   \<and> (ps \<noteq> [] \<longleftrightarrow> (\<exists>c \<in> set cs. is_kind b p SetGamePlayer c))
   \<and> (ps \<noteq> [] \<longrightarrow> hd ps = i + first_index (is_kind b p SetGamePlayer) cs
                     \<and> last ps = i + last_index (is_kind b p SetGamePlayer) cs)"
proof (induction cs arbitrary: i bs ps)
  case Nil
  then show ?case by simp
next
  case (Cons c cs)
  from Cons.prems obtain k bs' ps' where
    k: "kind_of_command b p c = Inr k"
    and r: "command_indexes b p (Suc i) cs = Inr (bs', ps')"
    by (auto split: sum.splits)
  note ih = Cons.IH [OF r]
  show ?case
  proof (cases k)
    case SetGameBoardCell
    with Cons.prems k r have "bs = i # bs'" "ps = ps'" by auto
    with ih k SetGameBoardCell show ?thesis by (auto simp: is_kind_def)
  next
    case SetGamePlayer
    with Cons.prems k r have "bs = bs'" "ps = i # ps'" by auto
    with ih k SetGamePlayer show ?thesis by (auto simp: is_kind_def)
  next
    case OtherCommand
    with Cons.prems k r have "bs = bs'" "ps = ps'" by auto
    with ih k OtherCommand show ?thesis by (auto simp: is_kind_def)
  qed
qed

lemma command_indexes_defined:
  "(\<forall>c \<in> set cs. \<exists>k. kind_of_command b p c = Inr k) \<Longrightarrow> \<exists>r. command_indexes b p i cs = Inr r"
proof (induction cs arbitrary: i)
  case Nil
  then show ?case by simp
next
  case (Cons c cs)
  then obtain k where k: "kind_of_command b p c = Inr k" by auto
  from Cons obtain bs ps where "command_indexes b p (Suc i) cs = Inr (bs, ps)" by fastforce
  with k show ?case by (cases k) auto
qed

lemma command_indexes_kinds:
  "command_indexes b p i cs = Inr r \<Longrightarrow> \<forall>c \<in> set cs. \<exists>k. kind_of_command b p c = Inr k"
  by (induction cs arbitrary: i r) (auto split: sum.splits)

lemma reorder_commands_list:
  assumes "reorder_commands b p (PList cs) = Inr out"
  shows "out = PList (if first_board_before_first_player b p cs
                      then move_slice (first_index (is_kind b p SetGamePlayer) cs)
                             (last_index (is_kind b p SetGamePlayer) cs) cs
                      else cs)"
proof -
  from assms obtain bs ps where r: "command_indexes b p 0 cs = Inr (bs, ps)"
    by (auto simp: reorder_commands_def py_iter_def split: sum.splits)
  note s = command_indexes_spec [OF r]
  have t: "(bs \<noteq> [] \<and> ps \<noteq> [] \<and> hd bs < hd ps) = first_board_before_first_player b p cs"
    using s by (auto simp: first_board_before_first_player_def)
  show ?thesis
  proof (cases "first_board_before_first_player b p cs")
    case True
    with t s have "hd ps = first_index (is_kind b p SetGamePlayer) cs"
      "last ps = last_index (is_kind b p SetGamePlayer) cs" "bs \<noteq> [] \<and> ps \<noteq> [] \<and> hd bs < hd ps"
      by auto
    with assms r True show ?thesis
      by (simp add: reorder_commands_def py_iter_def py_move_slice_def Let_def)
  next
    case False
    with t have "\<not> (bs \<noteq> [] \<and> ps \<noteq> [] \<and> hd bs < hd ps)" by simp
    with assms r False show ?thesis
      by (auto simp add: reorder_commands_def py_iter_def py_move_slice_def)
  qed
qed

lemma reorder_commands_defined:
  assumes "\<forall>c \<in> set cs. \<exists>k. kind_of_command b p c = Inr k"
  shows "\<exists>out. reorder_commands b p (PList cs) = Inr out"
proof -
  from command_indexes_defined [OF assms, of 0] obtain bs ps
    where "command_indexes b p 0 cs = Inr (bs, ps)" by fastforce
  then show ?thesis
    by (simp add: reorder_commands_def py_iter_def py_move_slice_def Let_def)
qed

lemma move_slice_first:
  assumes "f \<le> l" "l < length xs"
  shows "\<exists>rest. move_slice f l xs = xs ! f # rest"
proof -
  have "drop f xs = xs ! f # drop (Suc f) xs"
    using assms by (simp add: Cons_nth_drop_Suc)
  moreover have "l + 1 - f = Suc (l - f)" using assms by simp
  ultimately show ?thesis by (simp add: move_slice_def)
qed

lemma not_first_board_before_first_player:
  assumes "is_kind b p SetGamePlayer c"
  shows "\<not> first_board_before_first_player b p (c # rest)"
  using assms by (simp add: first_board_before_first_player_def)

text \<open>
  C3 (amended). For every batch whose commands all have a readable code: when the first
  SetGameBoardCell command stands before the first set-game-player command, the classifier
  moves the slice from the first to the last set-game-player command to the front, followed
  by the commands before it and the commands after it in their order; otherwise the batch
  is unchanged. When the set-game-player commands are next to each other, this puts every
  set-game-player command in front and leaves the others in their relative order. In every
  case, classifying the output again leaves it unchanged.
\<close>

theorem reorder_commands_amended:
  assumes wf: "\<forall>c \<in> set cs. \<exists>k. kind_of_command b p c = Inr k"
  shows "\<exists>out. reorder_commands b p (PList cs) = Inr (PList out)
           \<and> out = (if first_board_before_first_player b p cs
                    then move_slice (first_index (is_kind b p SetGamePlayer) cs)
                           (last_index (is_kind b p SetGamePlayer) cs) cs
                    else cs)
           \<and> (first_board_before_first_player b p cs \<and> players_contiguous b p cs
                \<longrightarrow> out = player_runs_first b p cs)
           \<and> reorder_commands b p (PList out) = Inr (PList out)"
proof -
  let ?P = "is_kind b p SetGamePlayer"
  let ?f = "first_index ?P cs" and ?l = "last_index ?P cs"
  define out where "out = (if first_board_before_first_player b p cs then move_slice ?f ?l cs else cs)"
  from reorder_commands_defined [OF wf] obtain v where v: "reorder_commands b p (PList cs) = Inr v"
    by blast
  from reorder_commands_list [OF v] have r: "reorder_commands b p (PList cs) = Inr (PList out)"
    using v by (simp add: out_def)
  have c: "out = player_runs_first b p cs"
    if t: "first_board_before_first_player b p cs" and "players_contiguous b p cs"
  proof -
    from t have "\<exists>x \<in> set cs. ?P x" by (simp add: first_board_before_first_player_def)
    then have "move_slice ?f ?l cs = filter ?P cs @ filter (\<lambda>x. \<not> ?P x) cs"
      using that(2) unfolding players_contiguous_def by (rule move_slice_filter)
    with t show ?thesis by (simp add: out_def player_runs_first_def)
  qed
  have i: "reorder_commands b p (PList out) = Inr (PList out)"
  proof (cases "first_board_before_first_player b p cs")
    case False
    with r show ?thesis by (simp add: out_def)
  next
    case True
    then have ex: "\<exists>x \<in> set cs. ?P x" by (simp add: first_board_before_first_player_def)
    then have fl: "?f \<le> ?l" "?l < length cs" "?P (cs ! ?f)"
      using first_le_last_index [of cs ?P] last_index_less [of cs ?P] first_index_less [of cs ?P]
      by blast+
    from move_slice_first [OF fl(1,2)] obtain rest where m: "move_slice ?f ?l cs = cs ! ?f # rest"
      by blast
    have o: "out = cs ! ?f # rest" using True m by (simp add: out_def)
    have "set out = set cs"
      using move_slice_mset [OF fl(1), of cs] True by (metis out_def mset_eq_setD)
    with wf have "\<forall>c \<in> set out. \<exists>k. kind_of_command b p c = Inr k" by simp
    from reorder_commands_defined [OF this] obtain w where w: "reorder_commands b p (PList out) = Inr w"
      by blast
    from reorder_commands_list [OF w] not_first_board_before_first_player [OF fl(3), of rest]
    have "w = PList out" by (simp add: o)
    with w show ?thesis by simp
  qed
  from r c i show ?thesis unfolding out_def by blast
qed

text \<open>
  C3 as stated fails on two batches in which a board command precedes a set-game-player
  command: join, board, rejoin is left as it is (the first set-game-player command comes
  first), and board, join, tile, rejoin becomes join, tile, rejoin, board (the tile command
  between the two set-game-player commands moves with them).
\<close>

theorem reorder_commands_counterexample:
  "board_precedes_player 4 {8, 9, 10, 11, 24, 25}
     [example_player_join, example_board_cell, example_player_rejoin]
   \<and> reorder_commands 4 {8, 9, 10, 11, 24, 25}
       (PList [example_player_join, example_board_cell, example_player_rejoin])
     = Inr (PList [example_player_join, example_board_cell, example_player_rejoin])
   \<and> player_runs_first 4 {8, 9, 10, 11, 24, 25}
       [example_player_join, example_board_cell, example_player_rejoin]
     = [example_player_join, example_player_rejoin, example_board_cell]
   \<and> board_precedes_player 4 {8, 9, 10, 11, 24, 25}
       [example_board_cell, example_player_join, example_set_tile, example_player_rejoin]
   \<and> reorder_commands 4 {8, 9, 10, 11, 24, 25}
       (PList [example_board_cell, example_player_join, example_set_tile, example_player_rejoin])
     = Inr (PList [example_player_join, example_set_tile, example_player_rejoin, example_board_cell])
   \<and> player_runs_first 4 {8, 9, 10, 11, 24, 25}
       [example_board_cell, example_player_join, example_set_tile, example_player_rejoin]
     = [example_player_join, example_player_rejoin, example_board_cell, example_set_tile]"
proof -
  have k: "kind_of_command 4 {8, 9, 10, 11, 24, 25} example_player_join = Inr SetGamePlayer"
    "kind_of_command 4 {8, 9, 10, 11, 24, 25} example_player_rejoin = Inr SetGamePlayer"
    "kind_of_command 4 {8, 9, 10, 11, 24, 25} example_board_cell = Inr SetGameBoardCell"
    "kind_of_command 4 {8, 9, 10, 11, 24, 25} example_set_tile = Inr OtherCommand"
    by (simp_all add: kind_of_command_def py_index_def example_player_join_def
        example_player_rejoin_def example_board_cell_def example_set_tile_def)
  have 1: "board_precedes_player 4 {8, 9, 10, 11, 24, 25}
     [example_player_join, example_board_cell, example_player_rejoin]"
  proof -
    let ?cs = "[example_player_join, example_board_cell, example_player_rejoin]"
    have "(2::nat) < length ?cs \<and> (1::nat) < 2
          \<and> is_kind 4 {8, 9, 10, 11, 24, 25} SetGameBoardCell (?cs ! 1)
          \<and> is_kind 4 {8, 9, 10, 11, 24, 25} SetGamePlayer (?cs ! 2)"
      by (simp add: is_kind_def k)
    then show ?thesis unfolding board_precedes_player_def by blast
  qed
  have 2: "board_precedes_player 4 {8, 9, 10, 11, 24, 25}
       [example_board_cell, example_player_join, example_set_tile, example_player_rejoin]"
  proof -
    let ?cs = "[example_board_cell, example_player_join, example_set_tile, example_player_rejoin]"
    have "(1::nat) < length ?cs \<and> (0::nat) < 1
          \<and> is_kind 4 {8, 9, 10, 11, 24, 25} SetGameBoardCell (?cs ! 0)
          \<and> is_kind 4 {8, 9, 10, 11, 24, 25} SetGamePlayer (?cs ! 1)"
      by (simp add: is_kind_def k)
    then show ?thesis unfolding board_precedes_player_def by blast
  qed
  show ?thesis
    by (simp add: 1 2 reorder_commands_def py_iter_def py_move_slice_def k move_slice_def player_runs_first_def is_kind_def)
qed

theorem reorder_commands_amended_witness:
  "reorder_commands 4 {8, 9, 10, 11, 24, 25}
       (PList [example_board_cell, example_player_join, example_player_rejoin, example_set_tile])
     = Inr (PList [example_player_join, example_player_rejoin, example_board_cell, example_set_tile])
   \<and> reorder_commands 4 {8, 9, 10, 11, 24, 25}
       (PList [example_player_join, example_player_rejoin, example_board_cell, example_set_tile])
     = Inr (PList [example_player_join, example_player_rejoin, example_board_cell, example_set_tile])
   \<and> player_runs_first 4 {8, 9, 10, 11, 24, 25}
       [example_board_cell, example_player_join, example_player_rejoin, example_set_tile]
     = [example_player_join, example_player_rejoin, example_board_cell, example_set_tile]"
proof -
  let ?cs = "[example_board_cell, example_player_join, example_player_rejoin, example_set_tile]"
  let ?S = "{8, 9, 10, 11, 24, 25} :: int set"
  have k: "kind_of_command 4 ?S example_player_join = Inr SetGamePlayer"
    "kind_of_command 4 ?S example_player_rejoin = Inr SetGamePlayer"
    "kind_of_command 4 ?S example_board_cell = Inr SetGameBoardCell"
    "kind_of_command 4 ?S example_set_tile = Inr OtherCommand"
    by (simp_all add: kind_of_command_def py_index_def example_player_join_def
        example_player_rejoin_def example_board_cell_def example_set_tile_def)
  have wf: "\<forall>c \<in> set ?cs. \<exists>k. kind_of_command 4 ?S c = Inr k"
    by (simp add: k)
  have t: "first_board_before_first_player 4 ?S ?cs"
    by (simp add: first_board_before_first_player_def is_kind_def k)
  have c: "players_contiguous 4 ?S ?cs"
    by (simp add: players_contiguous_def is_kind_def k)
  have p: "player_runs_first 4 ?S ?cs
     = [example_player_join, example_player_rejoin, example_board_cell, example_set_tile]"
    by (simp add: player_runs_first_def is_kind_def k)
  from reorder_commands_amended [OF wf] t c p show ?thesis
    by auto
qed

subsection \<open>The second connection-made line\<close>


















subsection \<open>Delayed disconnects\<close>


lemma with_queue_fields [simp]:
  "enums (with_queue q s) = enums s"
  "proc_log_timestamp (with_queue q s) = proc_log_timestamp s"
  "client_id_to_username (with_queue q s) = client_id_to_username s"
  "username_to_client_id (with_queue q s) = username_to_client_id s"
  "client_id_to_game_id (with_queue q s) = client_id_to_game_id s"
  "game_id_to_game (with_queue q s) = game_id_to_game s"
  "expired_games (with_queue q s) = expired_games s"
  "current_time (with_queue q s) = current_time s"
  "delayed_calls (with_queue q s) = q"
  by (simp_all add: with_queue_def)

lemma with_queue_updates [simp]:
  "(with_queue q s)\<lparr>client_id_to_game_id := a\<rparr> = with_queue q (s\<lparr>client_id_to_game_id := a\<rparr>)"
  "(with_queue q s)\<lparr>client_id_to_username := b\<rparr> = with_queue q (s\<lparr>client_id_to_username := b\<rparr>)"
  "(with_queue q s)\<lparr>username_to_client_id := c\<rparr> = with_queue q (s\<lparr>username_to_client_id := c\<rparr>)"
  "(with_queue q s)\<lparr>game_id_to_game := d\<rparr> = with_queue q (s\<lparr>game_id_to_game := d\<rparr>)"
  "(with_queue q s)\<lparr>expired_games := e\<rparr> = with_queue q (s\<lparr>expired_games := e\<rparr>)"
  "(with_queue q s)\<lparr>current_time := f\<rparr> = with_queue q (s\<lparr>current_time := f\<rparr>)"
  "(with_queue q s)\<lparr>delayed_calls := q'\<rparr> = with_queue q' s"
  "with_queue q' (with_queue q s) = with_queue q' s"
  by (simp_all add: with_queue_def)

lemma with_queue_helpers [simp]:
  "game_of_client (with_queue q s) c = game_of_client s c"
  "player_of_client (with_queue q s) g c = player_of_client s g c"
  "history_target (with_queue q s) c = history_target s c"
  "store_game (with_queue q s) gid g = with_queue q (store_game s gid g)"
  by (simp_all add: game_of_client_def player_of_client_def history_target_def store_game_def)

lemma lift_Inr [simp]: "lift_queue q (Inr s) = Inr (with_queue q s)" "lift_queue q (Inl e) = Inl e"
  by (simp_all add: lift_queue_def)






























subsection \<open>Exceptions during reconstruction\<close>






subsection \<open>The comparison of the histories\<close>

lemma norm_index_lt: "norm_index n k = Some j \<Longrightarrow> j < n"
  by (auto simp: norm_index_def Let_def split: if_splits)











end
